theory Spec2Isabelle
  imports Main
begin

section \<open>Alignment matrix control: values, identifiers and selection\<close>

text \<open>
  The development follows \<^verbatim>\<open>packages/components/src/alignment-matrix-control\<close>
  (\<^verbatim>\<open>utils.tsx\<close> and \<^verbatim>\<open>index.tsx\<close>) as bundled in the story chunk.
\<close>

subsection \<open>JavaScript values and string primitives\<close>

text \<open>
  The arguments of the utilities have the TypeScript type \<^verbatim>\<open>string | null | undefined\<close>.
  A result that is \<^verbatim>\<open>string | undefined\<close> uses the same type and is never \<open>Null\<close>.
  A string is the list of its code units; the program only compares and splices them.
\<close>

datatype jsval = Undefined | Null | Str string

text \<open>
  \<^verbatim>\<open>s.replace(pat, rep)\<close> with a string pattern: the first occurrence of \<open>pat\<close> in
  \<open>s\<close>, searched from the left, is replaced; without an occurrence \<open>s\<close> is returned.
  The replacement strings of this program contain no dollar sign, so they are inserted
  literally.
\<close>

fun js_replace :: "string \<Rightarrow> string \<Rightarrow> string \<Rightarrow> string" where
  "js_replace [] pat rep = (if pat = [] then rep else [])"
| "js_replace (c # cs) pat rep =
     (if take (length pat) (c # cs) = pat then rep @ drop (length pat) (c # cs)
      else c # js_replace cs pat rep)"

text \<open>\<^verbatim>\<open>xs.indexOf(x)\<close>: the first position of \<open>x\<close>, or \<open>-1\<close>.\<close>

fun indexOf :: "'a list \<Rightarrow> 'a \<Rightarrow> int" where
  "indexOf [] x = - 1"
| "indexOf (y # ys) x =
     (if y = x then 0 else (let i = indexOf ys x in if i < 0 then - 1 else i + 1))"

text \<open>\<^verbatim>\<open>xs.includes(v)\<close> on a list of strings: \<^verbatim>\<open>undefined\<close> and \<^verbatim>\<open>null\<close> are no members.\<close>

fun js_includes :: "string list \<Rightarrow> jsval \<Rightarrow> bool" where
  "js_includes xs (Str s) = (s \<in> set xs)"
| "js_includes xs _ = False"

text \<open>\<^verbatim>\<open>!v\<close>: \<^verbatim>\<open>undefined\<close>, \<^verbatim>\<open>null\<close> and the empty string are falsy.\<close>

fun falsy :: "jsval \<Rightarrow> bool" where
  "falsy (Str s) = (s = [])"
| "falsy _ = True"

text \<open>\<^verbatim>\<open>v?.replace(pat, rep)\<close>: \<^verbatim>\<open>undefined\<close> when \<open>v\<close> is nullish.\<close>

fun opt_replace :: "jsval \<Rightarrow> string \<Rightarrow> string \<Rightarrow> jsval" where
  "opt_replace (Str s) pat rep = Str (js_replace s pat rep)"
| "opt_replace _ pat rep = Undefined"

text \<open>A parameter default \<^verbatim>\<open>(v = d)\<close>: the default stands in for \<^verbatim>\<open>undefined\<close> only.\<close>

fun param_default :: "jsval \<Rightarrow> jsval \<Rightarrow> jsval" where
  "param_default Undefined d = d"
| "param_default v d = v"

subsection \<open>The grid and the utilities\<close>

definition GRID :: "string list list" where
  "GRID =
    [[''top left'', ''top center'', ''top right''],
     [''center left'', ''center center'', ''center right''],
     [''bottom left'', ''bottom center'', ''bottom right'']]"

definition ALIGNMENTS :: "string list" where
  "ALIGNMENTS = concat GRID"

definition normalize :: "jsval \<Rightarrow> jsval" where
  "normalize value =
     (let normalized = (if Str ''center'' = value then Str ''center center'' else value);
          transformed = opt_replace normalized ''-'' '' ''
      in if js_includes ALIGNMENTS transformed then transformed else Undefined)"

definition getItemId :: "string \<Rightarrow> jsval \<Rightarrow> jsval" where
  "getItemId prefixId value =
     (let normalized = normalize value
      in if falsy normalized then Undefined
         else (case normalized of
                 Str n \<Rightarrow> Str (prefixId @ ''-'' @ js_replace n '' '' ''-'')
               | _ \<Rightarrow> Undefined))"

definition getItemValue :: "string \<Rightarrow> jsval \<Rightarrow> jsval" where
  "getItemValue prefixId id' = (let value = opt_replace id' (prefixId @ ''-'') '''' in normalize value)"

definition getAlignmentIndex :: "jsval \<Rightarrow> int option" where
  "getAlignmentIndex alignment0 =
     (let alignment = param_default alignment0 (Str ''center'');
          normalized = normalize alignment
      in if falsy normalized then None
         else (case normalized of
                 Str n \<Rightarrow> (let index = indexOf ALIGNMENTS n in if index > - 1 then Some index else None)
               | _ \<Rightarrow> None))"

subsection \<open>The component\<close>

text \<open>
  \<^verbatim>\<open>AlignmentMatrixControl\<close> takes the props \<^verbatim>\<open>defaultValue = "center center"\<close>,
  \<^verbatim>\<open>value\<close> and \<^verbatim>\<open>onChange\<close>; a parameter default applies when the prop is
  \<^verbatim>\<open>undefined\<close>. \<open>baseId\<close> is the result of \<^verbatim>\<open>useInstanceId\<close>, a string.
  The component hands the composite store the options \<^verbatim>\<open>defaultActiveId\<close>,
  \<^verbatim>\<open>activeId\<close> and the handler \<^verbatim>\<open>setActiveId\<close> (\<^verbatim>\<open>rtl\<close> plays no part here).
\<close>

record store_options =
  defaultActiveId :: jsval
  activeId :: jsval

definition compositeStore_options :: "string \<Rightarrow> jsval \<Rightarrow> jsval \<Rightarrow> store_options" where
  "compositeStore_options baseId defaultValue0 value =
     (let defaultValue = param_default defaultValue0 (Str ''center center'')
      in \<lparr>defaultActiveId = getItemId baseId defaultValue,
          activeId = getItemId baseId value\<rparr>)"

text \<open>
  The handler \<^verbatim>\<open>nextActiveId => { const nextValue = getItemValue(baseId, nextActiveId);
  nextValue && onChange?.(nextValue) }\<close>. The prop \<open>onChange\<close> is optional; the result
  lists the calls of \<open>onChange\<close> that the handler makes, each as the callback applied
  to its argument. The handler has no other statement.
\<close>

definition setActiveId :: "string \<Rightarrow> (string \<Rightarrow> 'a) option \<Rightarrow> jsval \<Rightarrow> 'a list" where
  "setActiveId baseId onChange nextActiveId =
     (let nextValue = getItemValue baseId nextActiveId
      in if falsy nextValue then []
         else (case nextValue of
                 Str v \<Rightarrow> (case onChange of None \<Rightarrow> [] | Some f \<Rightarrow> [f v])
               | _ \<Rightarrow> []))"

text \<open>
  The render pass: every cell of \<open>GRID\<close>, row by row, gets
  \<^verbatim>\<open>cellId = getItemId(baseId, cell)\<close> and \<^verbatim>\<open>isActive = cellId === activeId\<close>.
\<close>

record cell_props =
  cell_id :: jsval
  isActive :: bool
  cell_value :: string

definition render_cell :: "string \<Rightarrow> jsval \<Rightarrow> string \<Rightarrow> cell_props" where
  "render_cell baseId activeId' cell =
     (let cellId = getItemId baseId (Str cell)
      in \<lparr>cell_id = cellId, isActive = (cellId = activeId'), cell_value = cell\<rparr>)"

definition render_grid :: "string \<Rightarrow> jsval \<Rightarrow> cell_props list list" where
  "render_grid baseId activeId' = map (\<lambda>cells. map (render_cell baseId activeId') cells) GRID"

subsection \<open>The composite store\<close>

text \<open>
  Modelled from the spec: the state of the composite store (\<^verbatim>\<open>useCompositeStore\<close> of
  the Ariakit library, whose code is not part of the sources). Sections 4.4 and 9 of the
  spec give the store as a capability that holds one active identifier, owned either by
  the caller (controlled) or by the store itself (uncontrolled), never both.
\<close>

datatype selection = Controlled jsval | Uncontrolled jsval

text \<open>
  Modelled from the spec: how the store starts (section 4.4, Initialize). A supplied
  \<^verbatim>\<open>activeId\<close> option takes precedence and makes the store controlled; otherwise the
  store is uncontrolled and starts from \<^verbatim>\<open>defaultActiveId\<close>.
\<close>

definition store_initialize :: "store_options \<Rightarrow> selection" where
  "store_initialize opts =
     (case activeId opts of
        Undefined \<Rightarrow> Uncontrolled (defaultActiveId opts)
      | a \<Rightarrow> Controlled a)"

text \<open>Modelled from the spec: reading the active identifier (\<^verbatim>\<open>getActiveId()\<close>, section 9).\<close>

fun active_identifier :: "selection \<Rightarrow> jsval" where
  "active_identifier (Controlled a) = a"
| "active_identifier (Uncontrolled a) = a"

text \<open>
  Modelled from the spec: the store's own update on activation (section 4.4). Only in
  uncontrolled mode does the internal active identifier become \<open>x\<close>; in controlled mode
  the store does not update itself.
\<close>

fun store_activate :: "selection \<Rightarrow> string \<Rightarrow> selection" where
  "store_activate (Controlled a) x = Controlled a"
| "store_activate (Uncontrolled a) x = Uncontrolled (Str x)"

text \<open>
  Modelled from the spec: the transition "user activates cell \<open>x\<close>" of section 4.4. The
  next value is computed first; if it is defined, the change notification is made (by
  the handler \<open>setActiveId\<close> of the component) and the store is told to activate \<open>x\<close>;
  an identifier that decodes to nothing is ignored. The result is the new selection and
  the calls of \<open>onChange\<close>.
\<close>

definition user_activates ::
  "string \<Rightarrow> (string \<Rightarrow> 'a) option \<Rightarrow> selection \<Rightarrow> string \<Rightarrow> selection \<times> 'a list" where
  "user_activates prefix onChange sel x =
     (let nextValue = getItemValue prefix (Str x)
      in if nextValue \<noteq> Undefined
         then (store_activate sel x, setActiveId prefix onChange (Str x))
         else (sel, []))"

text \<open>
  The initialisation rule in the words of the specification: the controlled value if one
  is supplied, else the default value if one is supplied, else unset.
\<close>

definition spec_initial_activeId :: "string \<Rightarrow> jsval \<Rightarrow> jsval \<Rightarrow> jsval" where
  "spec_initial_activeId prefix defaultValue controlledValue =
     (if controlledValue \<noteq> Undefined then getItemId prefix controlledValue
      else if defaultValue \<noteq> Undefined then getItemId prefix defaultValue
      else Undefined)"

text \<open>
  The decoding rule in the words of the specification: a leading \<open>prefix-\<close> is stripped,
  an identifier without it is taken whole, and the remainder is normalized.
\<close>

definition spec_getItemValue :: "string \<Rightarrow> jsval \<Rightarrow> jsval" where
  "spec_getItemValue prefix id' =
     (case id' of
        Str s \<Rightarrow>
          normalize (Str (if take (length (prefix @ ''-'')) s = prefix @ ''-''
                          then drop (length (prefix @ ''-'')) s else s))
      | _ \<Rightarrow> Undefined)"

section \<open>Properties\<close>

subsection \<open>String replacement\<close>

lemma js_replace_at_start: "js_replace (pat @ rest) pat rep = rep @ rest"
proof (cases "pat @ rest")
  case Nil
  then show ?thesis by simp
next
  case (Cons a list)
  have "js_replace (a # list) pat rep = rep @ rest"
    unfolding js_replace.simps using Cons [symmetric] by simp
  with Cons show ?thesis by simp
qed

subsection \<open>Normalization and identifiers\<close>

lemma ALIGNMENTS_list:
  "ALIGNMENTS = [''top left'', ''top center'', ''top right'',
     ''center left'', ''center center'', ''center right'',
     ''bottom left'', ''bottom center'', ''bottom right'']"
  by (simp add: ALIGNMENTS_def GRID_def)

lemma normalize_Str:
  "normalize (Str s) =
     (if js_replace (if s = ''center'' then ''center center'' else s) ''-'' '' '' \<in> set ALIGNMENTS
      then Str (js_replace (if s = ''center'' then ''center center'' else s) ''-'' '' '')
      else Undefined)"
  by (simp add: normalize_def Let_def)

lemma normalize_nullish: "normalize Undefined = Undefined" "normalize Null = Undefined"
  by (simp_all add: normalize_def)

lemma normalize_cases:
  "normalize v = Undefined \<or> (\<exists>t. t \<in> set ALIGNMENTS \<and> normalize v = Str t)"
  by (cases v) (simp_all add: normalize_nullish normalize_Str)

lemma hyphenated_normalize_all:
  "\<forall>n\<in>set ALIGNMENTS. normalize (Str (js_replace n '' '' ''-'')) = Str n"
  by (simp add: normalize_def ALIGNMENTS_list)

lemma hyphenated_normalize:
  "n \<in> set ALIGNMENTS \<Longrightarrow> normalize (Str (js_replace n '' '' ''-'')) = Str n"
  using hyphenated_normalize_all by blast

lemma canonical_nonempty_all: "\<forall>n\<in>set ALIGNMENTS. n \<noteq> []"
  by (simp add: ALIGNMENTS_list)

lemma canonical_nonempty: "n \<in> set ALIGNMENTS \<Longrightarrow> n \<noteq> []"
  using canonical_nonempty_all by blast

lemma getItemId_of_valid:
  "normalize v = Str n \<Longrightarrow> getItemId p v = Str (p @ ''-'' @ js_replace n '' '' ''-'')"
  using normalize_cases [of v] canonical_nonempty [of n]
  by (auto simp add: getItemId_def)

lemma getItemId_of_invalid: "normalize v = Undefined \<Longrightarrow> getItemId p v = Undefined"
  by (simp add: getItemId_def)

lemma getItemValue_Str_at_start:
  "getItemValue p (Str (p @ ''-'' @ rest)) = normalize (Str rest)"
  using js_replace_at_start [of "p @ ''-''" rest "[]"]
  by (simp add: getItemValue_def)

lemma roundtrip_any: "getItemValue p (getItemId p v) = normalize v"
proof -
  from normalize_cases [of v] show ?thesis
  proof
    assume u: "normalize v = Undefined"
    then show ?thesis
      by (simp add: getItemId_of_invalid getItemValue_def normalize_nullish)
  next
    assume "\<exists>t. t \<in> set ALIGNMENTS \<and> normalize v = Str t"
    then obtain t where t: "t \<in> set ALIGNMENTS" "normalize v = Str t" by blast
    then show ?thesis
      by (simp only: getItemId_of_valid getItemValue_Str_at_start hyphenated_normalize)
  qed
qed

lemma unhyphen_inverse:
  "CHR ''-'' \<notin> set t \<Longrightarrow> length (filter (\<lambda>c. c = CHR '' '') t) \<le> 1 \<Longrightarrow>
   js_replace s ''-'' '' '' = t \<Longrightarrow> s = t \<or> s = js_replace t '' '' ''-''"
proof (induction s arbitrary: t)
  case Nil
  then show ?case by simp
next
  case (Cons c cs)
  show ?case
  proof (cases "c = CHR ''-''")
    case True
    with Cons.prems have t: "t = CHR '' '' # cs" by simp
    with Cons.prems True show ?thesis by simp
  next
    case False
    with Cons.prems obtain t' where t: "t = c # t'" "js_replace cs ''-'' '' '' = t'"
      by auto
    with Cons.prems have "CHR ''-'' \<notin> set t'" "length (filter (\<lambda>c. c = CHR '' '') t') \<le> 1"
      by (auto split: if_splits)
    from Cons.IH [OF this t(2)] have d: "cs = t' \<or> cs = js_replace t' '' '' ''-''" .
    show ?thesis
    proof (cases "c = CHR '' ''")
      case True
      with Cons.prems t have "CHR '' '' \<notin> set t'"
        by (auto simp add: filter_empty_conv)
      then have "js_replace t' '' '' ''-'' = t'"
        by (induction t') auto
      with d t show ?thesis by simp
    next
      case False
      with d t show ?thesis by auto
    qed
  qed
qed

subsection \<open>What normalize accepts\<close>

lemma canonical_shape_all:
  "\<forall>t\<in>set ALIGNMENTS. CHR ''-'' \<notin> set t \<and> length (filter (\<lambda>c. c = CHR '' '') t) \<le> 1"
  by (simp add: ALIGNMENTS_list)

lemma canonical_fixed_all: "\<forall>t\<in>set ALIGNMENTS. normalize (Str t) = Str t"
  by (simp add: normalize_def ALIGNMENTS_list)

lemma normalize_center: "normalize (Str ''center'') = Str ''center center''"
  by (simp add: normalize_def ALIGNMENTS_list)

lemma normalize_Str_accepts:
  assumes "normalize (Str s) = Str t"
  shows "t \<in> set ALIGNMENTS \<and>
     (s = t \<or> s = js_replace t '' '' ''-'' \<or> (s = ''center'' \<and> t = ''center center''))"
proof (cases "s = ''center''")
  case True
  with assms normalize_center have "t = ''center center''" by simp
  with True show ?thesis by (simp add: ALIGNMENTS_list)
next
  case False
  with assms have t: "t \<in> set ALIGNMENTS" and r: "js_replace s ''-'' '' '' = t"
    by (auto simp add: normalize_Str split: if_splits)
  from t canonical_shape_all
  have "CHR ''-'' \<notin> set t" and "length (filter (\<lambda>c. c = CHR '' '') t) \<le> 1"
    by blast+
  from unhyphen_inverse [OF this r] t show ?thesis by blast
qed

lemma normalize_Str_iff:
  "normalize (Str s) = Str t \<longleftrightarrow>
     t \<in> set ALIGNMENTS \<and>
     (s = t \<or> s = js_replace t '' '' ''-'' \<or> (s = ''center'' \<and> t = ''center center''))"
  using normalize_Str_accepts [of s t] canonical_fixed_all hyphenated_normalize [of t]
    normalize_center
  by blast

lemma normalize_not_Null: "normalize v \<noteq> Null"
  using normalize_cases [of v] by auto

subsection \<open>Positions in the grid\<close>

lemma indexOf_member:
  "x \<in> set xs \<Longrightarrow>
     0 \<le> indexOf xs x \<and> indexOf xs x < int (length xs) \<and> xs ! nat (indexOf xs x) = x"
proof (induction xs)
  case Nil
  then show ?case by simp
next
  case (Cons y ys)
  show ?case
  proof (cases "y = x")
    case True
    then show ?thesis by simp
  next
    case False
    with Cons.prems have "x \<in> set ys" by simp
    from Cons.IH [OF this] False show ?thesis
      by (simp add: Let_def nat_add_distrib)
  qed
qed

lemma length_ALIGNMENTS: "length ALIGNMENTS = 9"
  by (simp add: ALIGNMENTS_list)

lemma row_major_all:
  "\<forall>k\<in>{0, 1, 2, 3, 4, 5, 6, 7, 8::nat}. ALIGNMENTS ! k = GRID ! (k div 3) ! (k mod 3)"
  by (simp add: ALIGNMENTS_list GRID_def)

lemma row_major: "k < 9 \<Longrightarrow> ALIGNMENTS ! k = GRID ! (k div 3) ! (k mod 3)"
proof -
  assume "k < 9"
  then have "k \<in> {0, 1, 2, 3, 4, 5, 6, 7, 8::nat}" by auto
  with row_major_all show ?thesis by blast
qed

lemma indexOf_canonical:
  assumes "t \<in> set ALIGNMENTS"
  shows "0 \<le> indexOf ALIGNMENTS t \<and> indexOf ALIGNMENTS t \<le> 8 \<and>
     ALIGNMENTS ! nat (indexOf ALIGNMENTS t) = t \<and>
     GRID ! (nat (indexOf ALIGNMENTS t) div 3) ! (nat (indexOf ALIGNMENTS t) mod 3) = t"
proof -
  from indexOf_member [OF assms] length_ALIGNMENTS
  have i: "0 \<le> indexOf ALIGNMENTS t" "indexOf ALIGNMENTS t < 9"
    "ALIGNMENTS ! nat (indexOf ALIGNMENTS t) = t"
    by simp_all
  then have "nat (indexOf ALIGNMENTS t) < 9" by simp
  from row_major [OF this] i show ?thesis by simp
qed

lemma getAlignmentIndex_of_valid:
  assumes "normalize (param_default a (Str ''center'')) = Str t"
  shows "getAlignmentIndex a = Some (indexOf ALIGNMENTS t)"
proof -
  from assms normalize_cases [of "param_default a (Str ''center'')"]
  have t: "t \<in> set ALIGNMENTS"
    by auto
  with canonical_nonempty indexOf_canonical have "t \<noteq> []" "0 \<le> indexOf ALIGNMENTS t"
    by blast+
  with assms show ?thesis
    by (simp add: getAlignmentIndex_def Let_def)
qed

lemma getAlignmentIndex_of_invalid:
  assumes "normalize (param_default a (Str ''center'')) = Undefined"
  shows "getAlignmentIndex a = None"
  using assms by (simp add: getAlignmentIndex_def Let_def)

lemma getAlignmentIndex_Some:
  assumes "getAlignmentIndex a = Some i"
  shows "\<exists>t. t \<in> set ALIGNMENTS \<and> normalize (param_default a (Str ''center'')) = Str t \<and>
           i = indexOf ALIGNMENTS t"
proof -
  let ?d = "param_default a (Str ''center'')"
  from normalize_cases [of ?d] show ?thesis
  proof
    assume "normalize ?d = Undefined"
    from getAlignmentIndex_of_invalid [OF this] assms show ?thesis by simp
  next
    assume "\<exists>t. t \<in> set ALIGNMENTS \<and> normalize ?d = Str t"
    then obtain t where t: "t \<in> set ALIGNMENTS" "normalize ?d = Str t" by blast
    from getAlignmentIndex_of_valid [OF t(2)] assms t show ?thesis by auto
  qed
qed

subsection \<open>Fixed points and the round trip\<close>

text \<open>
  C8: each of the nine canonical alignment values (the space-separated tokens of the
  grid, row by row) is a fixed point of \<open>normalize\<close>.
\<close>

theorem normalize_canonical_fixed:
  "ALIGNMENTS =
     [''top left'', ''top center'', ''top right'',
      ''center left'', ''center center'', ''center right'',
      ''bottom left'', ''bottom center'', ''bottom right''] \<and>
   (\<forall>v\<in>set ALIGNMENTS. normalize (Str v) = Str v)"
  by (simp add: normalize_def ALIGNMENTS_list)

theorem normalize_canonical_fixed_witness:
  "normalize (Str ''bottom center'') = Str ''bottom center''"
proof -
  have "''bottom center'' \<in> set ALIGNMENTS"
    by (simp add: ALIGNMENTS_list)
  with normalize_canonical_fixed show ?thesis
    by blast
qed

text \<open>
  C1: the round-trip law. For every valid alignment value \<open>v\<close> (one that \<open>normalize\<close>
  accepts) and every non-empty prefix \<open>p\<close>, decoding the identifier made from \<open>v\<close>
  gives \<open>normalize v\<close>. The generated identifier starts with \<open>p-\<close>, so the first
  occurrence that \<open>replace\<close> removes is the leading one.
\<close>

theorem getItemValue_getItemId_roundtrip:
  "normalize v \<noteq> Undefined \<Longrightarrow> p \<noteq> [] \<Longrightarrow> getItemValue p (getItemId p v) = normalize v"
  by (rule roundtrip_any)

theorem getItemValue_getItemId_roundtrip_witness:
  "normalize (Str ''bottom-left'') \<noteq> Undefined \<and> ''abc'' \<noteq> [] \<and>
   getItemId ''abc'' (Str ''bottom-left'') = Str ''abc-bottom-left'' \<and>
   getItemValue ''abc'' (getItemId ''abc'' (Str ''bottom-left'')) = Str ''bottom left''"
proof -
  have n: "normalize (Str ''bottom-left'') = Str ''bottom left''"
    by (simp add: normalize_def ALIGNMENTS_list)
  have v: "normalize (Str ''bottom-left'') \<noteq> Undefined"
    by (simp add: n)
  have p: "''abc'' \<noteq> []"
    by simp
  have i: "getItemId ''abc'' (Str ''bottom-left'') = Str ''abc-bottom-left''"
    by (simp add: getItemId_def n)
  from getItemValue_getItemId_roundtrip [OF v p] n
  have "getItemValue ''abc'' (getItemId ''abc'' (Str ''bottom-left'')) = Str ''bottom left''"
    by (rule trans)
  with v p i show ?thesis
    by blast
qed

subsection \<open>The contract of normalize\<close>

text \<open>
  C2: the contract of \<open>normalize\<close> on strings. The shorthand \<open>center\<close> goes to
  \<open>center center\<close>, one hyphen is replaced by a space, and the result is returned when
  it is one of the nine canonical values. So \<open>normalize\<close> returns a canonical value
  \<open>t\<close> exactly for the inputs \<open>t\<close>, \<open>t\<close> with its space written as a hyphen, and the
  shorthand; every other input (the empty string, unknown tokens, other letter cases, a
  second hyphen) gives \<^verbatim>\<open>undefined\<close>. The model has no failure branch: on a string or a
  nullish argument the source raises nothing.
\<close>

theorem normalize_contract:
  "(normalize (Str s) = Str t \<longleftrightarrow>
      t \<in> set ALIGNMENTS \<and>
      (s = t \<or> s = js_replace t '' '' ''-'' \<or> (s = ''center'' \<and> t = ''center center''))) \<and>
   (normalize v = Undefined \<or> (\<exists>c. c \<in> set ALIGNMENTS \<and> normalize v = Str c)) \<and>
   normalize (Str ''center'') = Str ''center center'' \<and>
   normalize (Str ''bottom-left'') = Str ''bottom left'' \<and>
   normalize (Str ''center-center'') = Str ''center center'' \<and>
   normalize (Str '''') = Undefined \<and>
   normalize (Str ''diagonal'') = Undefined \<and>
   normalize (Str ''Center'') = Undefined \<and>
   normalize (Str ''Top Left'') = Undefined \<and>
   normalize (Str ''top-left-'') = Undefined \<and>
   normalize Undefined = Undefined \<and>
   normalize Null = Undefined"
proof -
  have ex: "normalize (Str ''bottom-left'') = Str ''bottom left''"
    "normalize (Str ''center-center'') = Str ''center center''"
    "normalize (Str '''') = Undefined"
    "normalize (Str ''diagonal'') = Undefined"
    "normalize (Str ''Center'') = Undefined"
    "normalize (Str ''Top Left'') = Undefined"
    "normalize (Str ''top-left-'') = Undefined"
    by (simp_all add: normalize_def ALIGNMENTS_list)
  show ?thesis
    using normalize_Str_iff [of s t] normalize_cases [of v] normalize_center ex normalize_nullish
    by blast
qed

theorem normalize_contract_witness:
  "normalize (Str ''top-right'') = Str ''top right'' \<and> ''top right'' \<in> set ALIGNMENTS \<and>
   normalize (Str ''top_right'') = Undefined"
proof -
  have m: "''top right'' \<in> set ALIGNMENTS"
    by (simp add: ALIGNMENTS_list)
  have h: "''top-right'' = js_replace ''top right'' '' '' ''-''"
    by simp
  from normalize_contract [of "''top-right''" "''top right''"] m h
  have a: "normalize (Str ''top-right'') = Str ''top right''"
    by blast
  have n: "\<forall>c\<in>set ALIGNMENTS. ''top_right'' \<noteq> c \<and> ''top_right'' \<noteq> js_replace c '' '' ''-''"
    by (simp add: ALIGNMENTS_list)
  have c: "''top_right'' \<noteq> ''center''"
    by simp
  have "normalize (Str ''top_right'') \<noteq> Str u" for u
    using normalize_contract [of "''top_right''" u] n c by blast
  with normalize_contract [of _ _ "Str ''top_right''"]
  have "normalize (Str ''top_right'') = Undefined"
    by blast
  with a m show ?thesis by blast
qed

subsection \<open>The grid index\<close>

text \<open>
  C4: \<open>getAlignmentIndex\<close> normalizes its argument, with \<open>center\<close> standing in for an
  omitted one, and returns the position of the value in the row-major flattening of the
  three-by-three grid, an integer from 0 to 8. The omitted argument and \<open>center\<close> both
  give 4. An invalid argument gives \<^verbatim>\<open>undefined\<close> (here \<open>None\<close>), and \<open>-1\<close> is never
  returned.
\<close>

theorem getAlignmentIndex_contract:
  "getAlignmentIndex Undefined = Some 4 \<and>
   getAlignmentIndex (Str ''center'') = Some 4 \<and>
   map (\<lambda>v. getAlignmentIndex (Str v)) ALIGNMENTS = map Some [0, 1, 2, 3, 4, 5, 6, 7, 8] \<and>
   (getAlignmentIndex a = Some i \<longrightarrow>
      0 \<le> i \<and> i \<le> 8 \<and>
      normalize (param_default a (Str ''center'')) = Str (ALIGNMENTS ! nat i) \<and>
      ALIGNMENTS ! nat i = GRID ! (nat i div 3) ! (nat i mod 3)) \<and>
   (normalize a \<noteq> Undefined \<longrightarrow> getAlignmentIndex a \<noteq> None) \<and>
   (a \<noteq> Undefined \<longrightarrow> normalize a = Undefined \<longrightarrow> getAlignmentIndex a = None) \<and>
   getAlignmentIndex a \<noteq> Some (- 1) \<and>
   getAlignmentIndex (Str ''invalid'') = None"
proof -
  have c: "getAlignmentIndex Undefined = Some 4" "getAlignmentIndex (Str ''center'') = Some 4"
    "getAlignmentIndex (Str ''invalid'') = None"
    by (simp_all add: getAlignmentIndex_def normalize_def ALIGNMENTS_list)
  have m: "map (\<lambda>v. getAlignmentIndex (Str v)) ALIGNMENTS = map Some [0, 1, 2, 3, 4, 5, 6, 7, 8]"
    by (simp add: getAlignmentIndex_def normalize_def ALIGNMENTS_list)
  have s: "0 \<le> i \<and> i \<le> 8 \<and>
      normalize (param_default a (Str ''center'')) = Str (ALIGNMENTS ! nat i) \<and>
      ALIGNMENTS ! nat i = GRID ! (nat i div 3) ! (nat i mod 3)"
    if "getAlignmentIndex a = Some i" for i
  proof -
    from getAlignmentIndex_Some [OF that] obtain t where
      t: "t \<in> set ALIGNMENTS" "normalize (param_default a (Str ''center'')) = Str t"
         "i = indexOf ALIGNMENTS t"
      by blast
    with indexOf_canonical [of t] show ?thesis by simp
  qed
  have v: "getAlignmentIndex a \<noteq> None" if "normalize a \<noteq> Undefined"
  proof -
    from that have "a \<noteq> Undefined" by (auto simp add: normalize_nullish)
    then have d: "(param_default a (Str ''center'')) = a" by (cases a) simp_all
    from that normalize_cases [of a] obtain t where "normalize a = Str t" by blast
    with d getAlignmentIndex_of_valid [of a t] show ?thesis by simp
  qed
  have n: "getAlignmentIndex a = None" if "a \<noteq> Undefined" "normalize a = Undefined"
  proof -
    from that have d: "(param_default a (Str ''center'')) = a" by (cases a) simp_all
    with that getAlignmentIndex_of_invalid [of a] show ?thesis by simp
  qed
  have neg: "getAlignmentIndex a \<noteq> Some (- 1)"
    using s [of "- 1"] by auto
  from c m s v n neg show ?thesis by blast
qed

theorem getAlignmentIndex_contract_witness:
  "getAlignmentIndex (Str ''bottom-right'') = Some 8 \<and>
   normalize (Str ''bottom-right'') = Str ''bottom right'' \<and>
   ALIGNMENTS ! 8 = GRID ! 2 ! 2 \<and>
   Null \<noteq> Undefined \<and> normalize Null = Undefined \<and> getAlignmentIndex Null = None"
proof -
  have e: "getAlignmentIndex (Str ''bottom-right'') = Some 8"
    by (simp add: getAlignmentIndex_def normalize_def ALIGNMENTS_list)
  from getAlignmentIndex_contract [of "Str ''bottom-right''" 8] e
  have a: "normalize (Str ''bottom-right'') = Str (ALIGNMENTS ! nat 8)"
    "ALIGNMENTS ! nat 8 = GRID ! (nat 8 div 3) ! (nat 8 mod 3)"
    by simp_all
  have b: "ALIGNMENTS ! nat 8 = ''bottom right''"
    by (simp add: ALIGNMENTS_list)
  have u: "normalize Null = Undefined"
    by (simp add: normalize_nullish)
  from getAlignmentIndex_contract [of Null] u have "getAlignmentIndex Null = None"
    by simp
  with e a b u show ?thesis by simp
qed

subsection \<open>The change notification\<close>

lemma getItemValue_cases:
  "getItemValue p i = Undefined \<or> (\<exists>t. t \<in> set ALIGNMENTS \<and> getItemValue p i = Str t)"
  unfolding getItemValue_def Let_def by (rule normalize_cases)

lemma setActiveId_of_valid:
  "getItemValue p i = Str v \<Longrightarrow> setActiveId p onChange i = (case onChange of None \<Rightarrow> [] | Some f \<Rightarrow> [f v])"
  using getItemValue_cases [of p i] canonical_nonempty [of v]
  by (auto simp add: setActiveId_def)

lemma setActiveId_of_invalid:
  "getItemValue p i = Undefined \<Longrightarrow> setActiveId p onChange i = []"
  by (simp add: setActiveId_def)

text \<open>
  C5: the handler that the component gives the store. When the activated identifier
  decodes to \<^verbatim>\<open>undefined\<close> (a malformed or stale identifier) the handler makes no call
  of \<open>onChange\<close> and does nothing else: the transition is ignored without an error or a
  log entry. When a change callback is supplied it is called, once and with the decoded
  canonical value, exactly when the decoded value is defined. Without a callback nothing
  is called.
\<close>

theorem setActiveId_notifies:
  "(getItemValue baseId nextActiveId = Undefined \<longrightarrow>
      setActiveId baseId onChange nextActiveId = []) \<and>
   (getItemValue baseId nextActiveId = Str v \<longrightarrow>
      v \<in> set ALIGNMENTS \<and> setActiveId baseId (Some f) nextActiveId = [f v]) \<and>
   (setActiveId baseId (Some f) nextActiveId =
      (case getItemValue baseId nextActiveId of Str v \<Rightarrow> [f v] | _ \<Rightarrow> [])) \<and>
   (length (setActiveId baseId (Some f) nextActiveId) = 1 \<longleftrightarrow>
      getItemValue baseId nextActiveId \<noteq> Undefined) \<and>
   setActiveId baseId None nextActiveId = ([] :: 'a list) \<and>
   setActiveId baseId (Some f) Undefined = [] \<and>
   setActiveId baseId (Some f) Null = []"
proof -
  from getItemValue_cases [of baseId nextActiveId] show ?thesis
  proof
    assume u: "getItemValue baseId nextActiveId = Undefined"
    then show ?thesis
      by (simp add: setActiveId_of_invalid getItemValue_def normalize_nullish)
  next
    assume "\<exists>t. t \<in> set ALIGNMENTS \<and> getItemValue baseId nextActiveId = Str t"
    then obtain t where t: "t \<in> set ALIGNMENTS" "getItemValue baseId nextActiveId = Str t"
      by blast
    have n: "setActiveId baseId (Some f) Undefined = []" "setActiveId baseId (Some f) Null = []"
      by (simp_all add: setActiveId_of_invalid getItemValue_def normalize_nullish)
    from t n show ?thesis
      by (auto simp add: setActiveId_of_valid split: option.splits)
  qed
qed

theorem setActiveId_notifies_witness:
  "getItemValue ''abc'' (Str ''abc-top-left'') = Str ''top left'' \<and>
   setActiveId ''abc'' (Some (\<lambda>v. v)) (Str ''abc-top-left'') = [''top left''] \<and>
   getItemValue ''abc'' (Str ''abc-top-middle'') = Undefined \<and>
   setActiveId ''abc'' (Some (\<lambda>v. v)) (Str ''abc-top-middle'') = []"
proof -
  have a: "getItemValue ''abc'' (Str ''abc-top-left'') = Str ''top left''"
    by (simp add: getItemValue_def normalize_def ALIGNMENTS_list)
  have b: "getItemValue ''abc'' (Str ''abc-top-middle'') = Undefined"
    by (simp add: getItemValue_def normalize_def ALIGNMENTS_list)
  from setActiveId_notifies [of "''abc''" "Str ''abc-top-left''" _ "''top left''" "\<lambda>v. v"] a
  have c: "setActiveId ''abc'' (Some (\<lambda>v. v)) (Str ''abc-top-left'') = [''top left'']"
    by blast
  from setActiveId_notifies [of "''abc''" "Str ''abc-top-middle''" "Some (\<lambda>v. v)"] b
  have d: "setActiveId ''abc'' (Some (\<lambda>v. v)) (Str ''abc-top-middle'') = []"
    by blast
  from a b c d show ?thesis by blast
qed

subsection \<open>Identifiers of the rendered cells\<close>

lemma distinct_ALIGNMENTS: "distinct ALIGNMENTS"
  by (simp add: ALIGNMENTS_list)

lemma getItemId_canonical_inj:
  assumes "v \<in> set ALIGNMENTS" "w \<in> set ALIGNMENTS"
    and "getItemId p (Str v) = getItemId p (Str w)"
  shows "v = w"
proof -
  from assms(3) have "getItemValue p (getItemId p (Str v)) = getItemValue p (getItemId p (Str w))"
    by simp
  then have "normalize (Str v) = normalize (Str w)"
    by (simp only: roundtrip_any)
  with assms(1,2) canonical_fixed_all show ?thesis
    by auto
qed

lemma filter_inj_at_most_one:
  "distinct xs \<Longrightarrow> inj_on g (set xs) \<Longrightarrow> length (filter (\<lambda>x. g x = a) xs) \<le> 1"
proof (induction xs)
  case Nil
  then show ?case by simp
next
  case (Cons x xs)
  then have ih: "length (filter (\<lambda>x. g x = a) xs) \<le> 1"
    by simp
  show ?case
  proof (cases "g x = a")
    case True
    have "g y \<noteq> a" if "y \<in> set xs" for y
    proof
      assume "g y = a"
      with True have e: "g y = g x" by simp
      from Cons.prems(2) have "inj_on g (insert x (set xs))" by simp
      from inj_onD [OF this e] that have "y = x" by simp
      with Cons.prems(1) that show False by simp
    qed
    then have "filter (\<lambda>x. g x = a) xs = []"
      by (simp add: filter_empty_conv)
    with True show ?thesis by simp
  next
    case False
    with ih show ?thesis by simp
  qed
qed

lemma rendered_cells: "concat (render_grid p a) = map (render_cell p a) ALIGNMENTS"
  by (simp add: render_grid_def ALIGNMENTS_def map_concat)

text \<open>
  C10: for a fixed prefix \<open>getItemId\<close> is injective on the nine canonical values, so
  whatever the active identifier of the store is, at most one of the nine rendered cells
  has \<open>isActive\<close>.
\<close>

theorem getItemId_injective_one_active:
  "(v \<in> set ALIGNMENTS \<longrightarrow> w \<in> set ALIGNMENTS \<longrightarrow>
      getItemId p (Str v) = getItemId p (Str w) \<longrightarrow> v = w) \<and>
   inj_on (\<lambda>c. getItemId p (Str c)) (set ALIGNMENTS) \<and>
   length (concat (render_grid p a)) = 9 \<and>
   length (filter isActive (concat (render_grid p a))) \<le> 1"
proof -
  have i: "inj_on (\<lambda>c. getItemId p (Str c)) (set ALIGNMENTS)"
    by (rule inj_onI) (rule getItemId_canonical_inj)
  have "filter isActive (map (render_cell p a) ALIGNMENTS) =
        map (render_cell p a) (filter (\<lambda>c. getItemId p (Str c) = a) ALIGNMENTS)"
    by (simp add: filter_map o_def render_cell_def Let_def)
  then have "length (filter isActive (concat (render_grid p a))) =
        length (filter (\<lambda>c. getItemId p (Str c) = a) ALIGNMENTS)"
    by (simp add: rendered_cells)
  with filter_inj_at_most_one [OF distinct_ALIGNMENTS i, of a]
  have "length (filter isActive (concat (render_grid p a))) \<le> 1"
    by simp
  with i getItemId_canonical_inj [of v w p] show ?thesis
    by (simp add: rendered_cells length_ALIGNMENTS)
qed

theorem getItemId_injective_one_active_witness:
  "''top left'' \<in> set ALIGNMENTS \<and> ''top right'' \<in> set ALIGNMENTS \<and>
   getItemId ''abc'' (Str ''top left'') \<noteq> getItemId ''abc'' (Str ''top right'') \<and>
   map isActive (concat (render_grid ''abc'' (Str ''abc-top-right''))) =
     [False, False, True, False, False, False, False, False, False]"
proof -
  have m: "''top left'' \<in> set ALIGNMENTS" "''top right'' \<in> set ALIGNMENTS"
    by (simp_all add: ALIGNMENTS_list)
  have d: "''top left'' \<noteq> ''top right''"
    by simp
  from getItemId_injective_one_active [of "''top left''" "''top right''" "''abc''"] m d
  have n: "getItemId ''abc'' (Str ''top left'') \<noteq> getItemId ''abc'' (Str ''top right'')"
    by blast
  have r: "map isActive (concat (render_grid ''abc'' (Str ''abc-top-right''))) =
     [False, False, True, False, False, False, False, False, False]"
    by (simp add: rendered_cells render_cell_def getItemId_def normalize_def ALIGNMENTS_list)
  from m n r show ?thesis by blast
qed

subsection \<open>Decoding identifiers\<close>

lemma getItemValue_leading_prefix:
  "take (length (p @ ''-'')) s = p @ ''-'' \<Longrightarrow> getItemValue p (Str s) = spec_getItemValue p (Str s)"
  by (cases s) (simp_all add: getItemValue_def spec_getItemValue_def)

lemma getItemValue_absent:
  "getItemValue p Undefined = Undefined" "getItemValue p Null = Undefined"
  by (simp_all add: getItemValue_def normalize_nullish)

text \<open>
  C3: decoding an identifier. \<open>getItemValue\<close> agrees with the stated rule (strip a
  leading \<open>prefix-\<close>, else take the identifier whole, then normalize) when the identifier
  starts with \<open>prefix-\<close> and when it is absent, and it never raises. It departs from the
  rule on an identifier that holds \<open>prefix-\<close> further inside: \<^verbatim>\<open>replace\<close> removes that
  occurrence, so with the prefix \<open>a\<close> the malformed identifier \<open>top-a-left\<close> decodes to
  \<open>top left\<close>, where the rule gives \<^verbatim>\<open>undefined\<close>.
\<close>

theorem getItemValue_inner_prefix:
  "getItemValue ''a'' (Str ''top-a-left'') = Str ''top left'' \<and>
   spec_getItemValue ''a'' (Str ''top-a-left'') = Undefined"
  by (simp add: getItemValue_def spec_getItemValue_def normalize_def ALIGNMENTS_list)

subsection \<open>Initial selection\<close>

lemma getItemId_cases:
  "getItemId p v = Undefined \<or> (\<exists>t. t \<in> set ALIGNMENTS \<and> getItemId p v = Str (p @ ''-'' @ js_replace t '' '' ''-''))"
  using normalize_cases [of v] getItemId_of_invalid [of v p] getItemId_of_valid [of v _ p]
  by blast

lemma getItemId_nullish: "getItemId p Undefined = Undefined" "getItemId p Null = Undefined"
  by (simp_all add: getItemId_of_invalid normalize_nullish)

lemma getItemId_center: "getItemId p (Str ''center center'') = Str (p @ ''-center-center'')"
  by (simp add: getItemId_def normalize_def ALIGNMENTS_list)

lemma store_initialize_controlled:
  "activeId opts \<noteq> Undefined \<Longrightarrow> store_initialize opts = Controlled (activeId opts)"
  by (cases "activeId opts") (simp_all add: store_initialize_def)

lemma store_initialize_uncontrolled:
  "activeId opts = Undefined \<Longrightarrow> store_initialize opts = Uncontrolled (defaultActiveId opts)"
  by (simp add: store_initialize_def)

lemma initial_active_identifier:
  "active_identifier (store_initialize (compositeStore_options p d v)) =
     (if getItemId p v \<noteq> Undefined then getItemId p v
      else getItemId p (param_default d (Str ''center center'')))"
  by (simp add: store_initialize_controlled store_initialize_uncontrolled
      compositeStore_options_def)

text \<open>
  C9: with neither a controlled value nor a default value the active identifier is not
  left unset. The parameter \<open>defaultValue\<close> defaults to \<open>center center\<close>, so the store
  receives \<open>defaultActiveId = getItemId baseId ''center center''\<close>, the identifier of the
  center cell, exactly as if that default had been written out; the store starts from it
  and the center cell is the one rendered active.
\<close>

theorem default_active_id_center:
  "defaultActiveId (compositeStore_options baseId Undefined value) =
     getItemId baseId (Str ''center center'') \<and>
   getItemId baseId (Str ''center center'') = Str (baseId @ ''-center-center'') \<and>
   compositeStore_options baseId Undefined value =
     compositeStore_options baseId (Str ''center center'') value \<and>
   activeId (compositeStore_options baseId Undefined Undefined) = Undefined \<and>
   active_identifier (store_initialize (compositeStore_options baseId Undefined Undefined)) =
     Str (baseId @ ''-center-center'') \<and>
   map isActive (concat (render_grid baseId (Str (baseId @ ''-center-center'')))) =
     [False, False, False, False, True, False, False, False, False]"
proof -
  have r: "map isActive (concat (render_grid baseId (Str (baseId @ ''-center-center'')))) =
     [False, False, False, False, True, False, False, False, False]"
    by (simp add: rendered_cells render_cell_def getItemId_def normalize_def ALIGNMENTS_list)
  have i: "active_identifier (store_initialize (compositeStore_options baseId Undefined Undefined)) =
     Str (baseId @ ''-center-center'')"
    by (simp add: initial_active_identifier getItemId_center getItemId_nullish)
  have o: "defaultActiveId (compositeStore_options baseId Undefined value) =
       getItemId baseId (Str ''center center'')"
    "compositeStore_options baseId Undefined value =
       compositeStore_options baseId (Str ''center center'') value"
    "activeId (compositeStore_options baseId Undefined Undefined) = Undefined"
    by (simp_all add: compositeStore_options_def getItemId_nullish)
  from r i o getItemId_center [of baseId] show ?thesis
    by blast
qed

theorem default_active_id_center_witness:
  "active_identifier (store_initialize (compositeStore_options ''amc-0'' Undefined Undefined)) =
     Str ''amc-0-center-center'' \<and>
   defaultActiveId (compositeStore_options ''amc-0'' Undefined (Str ''top left'')) =
     Str ''amc-0-center-center''"
proof -
  from default_active_id_center [of "''amc-0''" Undefined]
  have a: "active_identifier (store_initialize (compositeStore_options ''amc-0'' Undefined Undefined)) =
     Str (''amc-0'' @ ''-center-center'')"
    by blast
  from default_active_id_center [of "''amc-0''" "Str ''top left''"]
  have b: "defaultActiveId (compositeStore_options ''amc-0'' Undefined (Str ''top left'')) =
     Str (''amc-0'' @ ''-center-center'')"
    by metis
  from a b show ?thesis by simp
qed

text \<open>
  C7, as stated, fails: with neither a controlled nor a default value the stated rule
  leaves the active identifier unset, while the component starts at the center cell.
\<close>

theorem initial_activeId_neither_supplied:
  "active_identifier (store_initialize (compositeStore_options ''abc'' Undefined Undefined)) =
     Str ''abc-center-center'' \<and>
   spec_initial_activeId ''abc'' Undefined Undefined = Undefined \<and>
   active_identifier (store_initialize (compositeStore_options ''abc'' Undefined Undefined)) \<noteq>
     spec_initial_activeId ''abc'' Undefined Undefined"
  by (simp add: initial_active_identifier getItemId_center getItemId_nullish
      spec_initial_activeId_def)

text \<open>
  C7, amended: if a valid controlled value is supplied, the active identifier is
  \<open>getItemId prefix controlledValue\<close>; if no controlled value is supplied and a default
  value is, it is \<open>getItemId prefix defaultValue\<close>; if neither is supplied it is
  \<open>getItemId prefix ''center center''\<close>, the center cell, because \<open>defaultValue\<close>
  defaults to \<open>center center\<close>. A controlled value that \<open>getItemId\<close> rejects reaches the
  store as \<^verbatim>\<open>activeId: undefined\<close>, the same options as with no controlled value.
\<close>

theorem initial_activeId_amended:
  "(getItemId prefix controlledValue \<noteq> Undefined \<longrightarrow>
      active_identifier (store_initialize (compositeStore_options prefix defaultValue controlledValue)) =
        getItemId prefix controlledValue) \<and>
   (controlledValue = Undefined \<longrightarrow> defaultValue \<noteq> Undefined \<longrightarrow>
      active_identifier (store_initialize (compositeStore_options prefix defaultValue controlledValue)) =
        getItemId prefix defaultValue) \<and>
   (controlledValue = Undefined \<longrightarrow> defaultValue = Undefined \<longrightarrow>
      active_identifier (store_initialize (compositeStore_options prefix defaultValue controlledValue)) =
        getItemId prefix (Str ''center center'') \<and>
      getItemId prefix (Str ''center center'') = Str (prefix @ ''-center-center'')) \<and>
   (getItemId prefix controlledValue = Undefined \<longrightarrow>
      compositeStore_options prefix defaultValue controlledValue =
        compositeStore_options prefix defaultValue Undefined)"
proof -
  have d: "param_default defaultValue (Str ''center center'') = defaultValue"
    if "defaultValue \<noteq> Undefined"
    using that by (cases defaultValue) simp_all
  have o: "compositeStore_options prefix defaultValue controlledValue =
        compositeStore_options prefix defaultValue Undefined"
    if "getItemId prefix controlledValue = Undefined"
    using that by (simp add: compositeStore_options_def getItemId_nullish)
  have i: "(getItemId prefix controlledValue \<noteq> Undefined \<longrightarrow>
      active_identifier (store_initialize (compositeStore_options prefix defaultValue controlledValue)) =
        getItemId prefix controlledValue) \<and>
   (controlledValue = Undefined \<longrightarrow> defaultValue \<noteq> Undefined \<longrightarrow>
      active_identifier (store_initialize (compositeStore_options prefix defaultValue controlledValue)) =
        getItemId prefix defaultValue) \<and>
   (controlledValue = Undefined \<longrightarrow> defaultValue = Undefined \<longrightarrow>
      active_identifier (store_initialize (compositeStore_options prefix defaultValue controlledValue)) =
        getItemId prefix (Str ''center center'') \<and>
      getItemId prefix (Str ''center center'') = Str (prefix @ ''-center-center''))"
    by (auto simp add: initial_active_identifier getItemId_center getItemId_nullish d)
  from i o show ?thesis
    by blast
qed

theorem initial_activeId_amended_witness:
  "getItemId ''abc'' (Str ''top-left'') \<noteq> Undefined \<and>
   active_identifier (store_initialize
     (compositeStore_options ''abc'' (Str ''bottom right'') (Str ''top-left''))) = Str ''abc-top-left'' \<and>
   Str ''bottom right'' \<noteq> Undefined \<and>
   active_identifier (store_initialize
     (compositeStore_options ''abc'' (Str ''bottom right'') Undefined)) = Str ''abc-bottom-right'' \<and>
   active_identifier (store_initialize
     (compositeStore_options ''abc'' Undefined Undefined)) = Str ''abc-center-center'' \<and>
   getItemId ''abc'' (Str ''diagonal'') = Undefined \<and>
   compositeStore_options ''abc'' Undefined (Str ''diagonal'') =
     compositeStore_options ''abc'' Undefined Undefined"
proof -
  have a: "getItemId ''abc'' (Str ''top-left'') = Str ''abc-top-left''"
    "getItemId ''abc'' (Str ''bottom right'') = Str ''abc-bottom-right''"
    "getItemId ''abc'' (Str ''diagonal'') = Undefined"
    by (simp_all add: getItemId_def normalize_def ALIGNMENTS_list)
  from initial_activeId_amended [of "''abc''" "Str ''top-left''" "Str ''bottom right''"] a
  have b: "active_identifier (store_initialize
     (compositeStore_options ''abc'' (Str ''bottom right'') (Str ''top-left''))) = Str ''abc-top-left''"
    by simp
  from initial_activeId_amended [of "''abc''" Undefined "Str ''bottom right''"] a
  have c: "active_identifier (store_initialize
     (compositeStore_options ''abc'' (Str ''bottom right'') Undefined)) = Str ''abc-bottom-right''"
    by simp
  from initial_activeId_amended [of "''abc''" Undefined Undefined]
  have d: "active_identifier (store_initialize
     (compositeStore_options ''abc'' Undefined Undefined)) = Str ''abc-center-center''"
    by simp
  from initial_activeId_amended [of "''abc''" "Str ''diagonal''" Undefined] a
  have e: "compositeStore_options ''abc'' Undefined (Str ''diagonal'') =
     compositeStore_options ''abc'' Undefined Undefined"
    by simp
  from a b c d e show ?thesis by simp
qed

subsection \<open>Activation in the two modes\<close>

lemma rendered_cell_decodes:
  assumes "cell \<in> set ALIGNMENTS" and "getItemId baseId (Str cell) = Str c"
  shows "getItemValue baseId (Str c) = Str cell"
proof -
  from roundtrip_any [of baseId "Str cell"] assms(2)
  have "getItemValue baseId (Str c) = normalize (Str cell)"
    by simp
  with assms(1) canonical_fixed_all show ?thesis
    by simp
qed

lemma user_activates_decoded:
  "getItemValue baseId (Str c) = Str v \<Longrightarrow>
     user_activates baseId onChange sel c =
       (store_activate sel c, setActiveId baseId onChange (Str c))"
  by (simp add: user_activates_def)

text \<open>
  C6: in uncontrolled mode (the store received no \<open>activeId\<close>) activating the rendered
  cell with identifier \<open>c\<close> makes \<open>c\<close> the active identifier read afterwards; in
  controlled mode (the store received the identifier of the caller's value) the
  activation leaves the selection as it was, so the active identifier stays the one
  computed from the caller's value until the caller supplies another.
\<close>

theorem activation_updates_only_uncontrolled:
  assumes "cell \<in> set ALIGNMENTS" and "getItemId baseId (Str cell) = Str c"
  shows
    "(getItemId baseId value = Undefined \<longrightarrow>
        active_identifier (fst (user_activates baseId onChange
          (store_initialize (compositeStore_options baseId defaultValue value)) c)) = Str c) \<and>
     (getItemId baseId value \<noteq> Undefined \<longrightarrow>
        active_identifier (fst (user_activates baseId onChange
          (store_initialize (compositeStore_options baseId defaultValue value)) c)) =
          getItemId baseId value \<and>
        fst (user_activates baseId onChange
          (store_initialize (compositeStore_options baseId defaultValue value)) c) =
          store_initialize (compositeStore_options baseId defaultValue value)) \<and>
     active_identifier (fst (user_activates baseId onChange (Uncontrolled a) c)) = Str c \<and>
     active_identifier (fst (user_activates baseId onChange (Controlled a) c)) = a"
proof -
  from rendered_cell_decodes [OF assms]
  have u: "user_activates baseId onChange sel c =
      (store_activate sel c, setActiveId baseId onChange (Str c))" for sel
    by (rule user_activates_decoded)
  show ?thesis
    by (simp add: u store_initialize_controlled store_initialize_uncontrolled
        compositeStore_options_def)
qed

theorem activation_updates_only_uncontrolled_witness:
  "''top left'' \<in> set ALIGNMENTS \<and>
   getItemId ''abc'' (Str ''top left'') = Str ''abc-top-left'' \<and>
   getItemId ''abc'' Undefined = Undefined \<and>
   active_identifier (fst (user_activates ''abc'' (Some (\<lambda>v. v))
     (store_initialize (compositeStore_options ''abc'' Undefined Undefined)) ''abc-top-left'')) =
     Str ''abc-top-left'' \<and>
   getItemId ''abc'' (Str ''center'') \<noteq> Undefined \<and>
   active_identifier (fst (user_activates ''abc'' (Some (\<lambda>v. v))
     (store_initialize (compositeStore_options ''abc'' Undefined (Str ''center''))) ''abc-top-left'')) =
     Str ''abc-center-center''"
proof -
  have m: "''top left'' \<in> set ALIGNMENTS"
    by (simp add: ALIGNMENTS_list)
  have i: "getItemId ''abc'' (Str ''top left'') = Str ''abc-top-left''"
    by (simp add: getItemId_def normalize_def ALIGNMENTS_list)
  have u: "getItemId ''abc'' Undefined = Undefined"
    by (simp add: getItemId_nullish)
  have v: "getItemId ''abc'' (Str ''center'') = Str ''abc-center-center''"
    by (simp add: getItemId_def normalize_def ALIGNMENTS_list)
  have w: "getItemId ''abc'' (Str ''center'') \<noteq> Undefined"
    by (simp add: v)
  from activation_updates_only_uncontrolled [OF m i, of Undefined "Some (\<lambda>v. v)" Undefined] u
  have a: "active_identifier (fst (user_activates ''abc'' (Some (\<lambda>v. v))
     (store_initialize (compositeStore_options ''abc'' Undefined Undefined)) ''abc-top-left'')) =
     Str ''abc-top-left''"
    by blast
  from activation_updates_only_uncontrolled [OF m i, of "Str ''center''" "Some (\<lambda>v. v)" Undefined] w
  have "active_identifier (fst (user_activates ''abc'' (Some (\<lambda>v. v))
     (store_initialize (compositeStore_options ''abc'' Undefined (Str ''center''))) ''abc-top-left'')) =
     getItemId ''abc'' (Str ''center'')"
    by blast
  with v have b: "active_identifier (fst (user_activates ''abc'' (Some (\<lambda>v. v))
     (store_initialize (compositeStore_options ''abc'' Undefined (Str ''center''))) ''abc-top-left'')) =
     Str ''abc-center-center''"
    by simp
  from m i u w a b show ?thesis by blast
qed

end
